theory Spec2Isabelle
  imports Main
begin

section \<open>Values shared by the checkpoint store and the processor\<close>

text \<open>
  A checkpoint is whatever JavaScript value the log source hands out as a position:
  \<^verbatim>\<open>undefined\<close>, \<^verbatim>\<open>null\<close> or a string. The operator \<^verbatim>\<open>||\<close> of the source selects
  its right operand exactly when the left one is falsy, which for these values means
  \<^verbatim>\<open>undefined\<close>, \<^verbatim>\<open>null\<close> or the empty string.
\<close>

datatype checkpoint = Undefined | Null | Str string

fun truthy :: "checkpoint \<Rightarrow> bool" where
  "truthy Undefined = False"
| "truthy Null = False"
| "truthy (Str s) = (s \<noteq> [])"

definition js_or :: "checkpoint \<Rightarrow> checkpoint \<Rightarrow> checkpoint" where
  "js_or a b = (if truthy a then a else b)"

text \<open>
  Errors are values. \<open>Failure\<close> is an error reported by the handler or by the log source,
  \<open>SkipRange msg err\<close> is the two-element array \<^verbatim>\<open>[message, err]\<close> that
  \<^verbatim>\<open>retryProcess\<close> builds when it gives up, and \<open>TypeError\<close> is what the runtime throws
  when a property of \<^verbatim>\<open>undefined\<close> is read.
\<close>

datatype jserror = Failure string | SkipRange string jserror | TypeError | ArgumentError string

text \<open>
  The warning of a run is the fixed text of \<^verbatim>\<open>runSuccess\<close> followed by the rendering of
  \<^verbatim>\<open>new Date(lastLogDate)\<close>; the model keeps the timestamp instead of its rendering.
\<close>

datatype warning = Outdated int

record status =
  logsProcessed :: nat
  error :: "jserror option"
  warning :: "warning option"
  checkpoint :: checkpoint

section \<open>Auth0Storage.js: the checkpoint store\<close>

text \<open>
  The persisted document. \<open>logs\<close> is \<open>None\<close> when the property is missing (or falsy);
  \<open>checkpointId\<close> is \<open>Undefined\<close> when it is missing. The document store behind
  \<^verbatim>\<open>read()\<close>/\<^verbatim>\<open>write(data)\<close> is a single cell: \<open>None\<close> is a read that yields
  \<^verbatim>\<open>undefined\<close>.
\<close>

record document =
  checkpointId :: checkpoint
  logs :: "status list option"

type_synonym docstore = "document option"

text \<open>The constructor's \<^verbatim>\<open>this.limit = (typeof limit === 'undefined') ? 400 : limit\<close>.\<close>

definition Auth0Storage_limit :: "int option \<Rightarrow> int" where
  "Auth0Storage_limit limit = (case limit of None \<Rightarrow> 400 | Some l \<Rightarrow> l)"

text \<open>
  \<^verbatim>\<open>getCheckpoint(startFrom)\<close>: the conditional on \<^verbatim>\<open>typeof data === 'undefined'\<close> with the
  two \<^verbatim>\<open>||\<close> chains. The result is the value the returned promise resolves with.
\<close>

definition Auth0Storage_getCheckpoint :: "docstore \<Rightarrow> checkpoint \<Rightarrow> jserror + checkpoint" where
  "Auth0Storage_getCheckpoint store startFrom =
     (case store of
        None \<Rightarrow> Inr (js_or startFrom Null)
      | Some data \<Rightarrow> Inr (js_or (js_or (checkpointId data) startFrom) Null))"

text \<open>The entries of the log sequence as \<^verbatim>\<open>done\<close> sees them after \<^verbatim>\<open>if (!data.logs) data.logs = []\<close>.\<close>

definition stored_logs :: "document \<Rightarrow> status list" where
  "stored_logs data = (case logs data of None \<Rightarrow> [] | Some l \<Rightarrow> l)"

text \<open>
  \<^verbatim>\<open>done(status, checkpoint)\<close>. \<open>byteLength\<close> stands for
  \<^verbatim>\<open>Buffer.byteLength(JSON.stringify(data), 'utf8')\<close>, a function of the platform and not
  of this repository. When the read yields \<^verbatim>\<open>undefined\<close>, reading \<^verbatim>\<open>data.logs\<close> throws
  inside the \<^verbatim>\<open>then\<close> callback, so the promise is rejected and nothing is written.
  \<^verbatim>\<open>splice(0, 5)\<close> removes the first five elements, or all of them when there are fewer.
  The function returns the store after the write together with the status object as
  mutated by \<^verbatim>\<open>status.checkpoint = checkpoint\<close>.
\<close>

definition Auth0Storage_done ::
  "(document \<Rightarrow> nat) \<Rightarrow> int \<Rightarrow> docstore \<Rightarrow> status \<Rightarrow> checkpoint \<Rightarrow> jserror + (docstore \<times> status)" where
  "Auth0Storage_done byteLength limit store st cp =
     (case store of
        None \<Rightarrow> Inl TypeError
      | Some data \<Rightarrow>
          (let storageSize = int (byteLength data);
               logs1 = stored_logs data;
               logs2 = (if storageSize \<ge> limit * 1024 \<and> logs1 \<noteq> [] then drop 5 logs1 else logs1);
               st' = st\<lparr>checkpoint := cp\<rparr>
           in Inr (Some (data\<lparr>logs := Some (logs2 @ [st']), checkpointId := cp\<rparr>), st')))"

text \<open>
  For closed evaluations the platform's measurement is given directly:
  \<open>reported_size n\<close> is the measurement that finds \<open>n\<close> bytes.
\<close>

definition reported_size :: "nat \<Rightarrow> document \<Rightarrow> nat" where
  "reported_size n data = n"

section \<open>processor.js: the constructor and the log filter\<close>

text \<open>
  The options object. A numeric or list property that is missing is \<open>None\<close>; a missing
  \<^verbatim>\<open>startFrom\<close> is \<open>Undefined\<close>. The field names carry the prefix \<open>opt_\<close> because
  \<^verbatim>\<open>run\<close> copies two of them into closure constants of the same name.
\<close>

record options =
  opt_batchSize :: "int option"
  opt_maxRetries :: "int option"
  opt_maxRunTimeSeconds :: "int option"
  opt_startFrom :: checkpoint
  opt_logTypes :: "string list option"
  opt_logLevel :: "int option"

text \<open>The empty object \<^verbatim>\<open>{ }\<close>.\<close>

definition empty_object :: options where
  "empty_object = \<lparr>opt_batchSize = None, opt_maxRetries = None, opt_maxRunTimeSeconds = None,
     opt_startFrom = Undefined, opt_logTypes = None, opt_logLevel = None\<rparr>"

text \<open>
  \<^verbatim>\<open>_.assign(target, source)\<close> copies every own property of the source onto the target,
  overwriting what the target had; \<^verbatim>\<open>_.assign(t, a, b)\<close> applies the sources from left to
  right, so it is \<open>assign (assign t a) b\<close>.
\<close>

definition overwrite :: "'a option \<Rightarrow> 'a option \<Rightarrow> 'a option" where
  "overwrite old new = (case new of None \<Rightarrow> old | Some v \<Rightarrow> Some v)"

definition assign :: "options \<Rightarrow> options \<Rightarrow> options" where
  "assign target source =
     \<lparr>opt_batchSize = overwrite (opt_batchSize target) (opt_batchSize source),
      opt_maxRetries = overwrite (opt_maxRetries target) (opt_maxRetries source),
      opt_maxRunTimeSeconds = overwrite (opt_maxRunTimeSeconds target) (opt_maxRunTimeSeconds source),
      opt_startFrom = (if opt_startFrom source = Undefined then opt_startFrom target else opt_startFrom source),
      opt_logTypes = overwrite (opt_logTypes target) (opt_logTypes source),
      opt_logLevel = overwrite (opt_logLevel target) (opt_logLevel source)\<rparr>"

text \<open>The object literal that is the last argument of \<^verbatim>\<open>_.assign\<close> in the constructor.\<close>

definition defaults :: options where
  "defaults = empty_object\<lparr>opt_batchSize := Some 100, opt_maxRetries := Some 5,
     opt_maxRunTimeSeconds := Some 20\<rparr>"

text \<open>
  The constructor. \<open>None\<close> is an options argument that is \<^verbatim>\<open>null\<close> or \<^verbatim>\<open>undefined\<close>.
  The store is built by \<^verbatim>\<open>new StorageProvider(storageContext)\<close>, with no limit argument.
\<close>

record processor =
  storageLimit :: int
  options :: options

definition LogsProcessor :: "options option \<Rightarrow> jserror + processor" where
  "LogsProcessor opts =
     (case opts of
        None \<Rightarrow> Inl (ArgumentError ''Must provide an options object'')
      | Some supplied \<Rightarrow>
          Inr \<lparr>storageLimit = Auth0Storage_limit None,
               options = assign (assign empty_object supplied) defaults\<rparr>)"

text \<open>
  The table of \<^verbatim>\<open>./logTypes\<close> is not among the sources; it is a parameter: the entries
  in the order of the object's keys, each with its \<^verbatim>\<open>level\<close>.
\<close>

record logtype =
  level :: int

type_synonym logtable = "(string \<times> logtype) list"

text \<open>
  The decimal text of a number, as string concatenation and \<^verbatim>\<open>_.keys\<close> produce it.
\<close>

definition digit :: "nat \<Rightarrow> char" where
  "digit d = ''0123456789'' ! d"

fun decimal :: "nat \<Rightarrow> string" where
  "decimal n = (if 10 \<le> n then decimal (n div 10) @ [digit (n mod 10)] else [digit n])"

definition number_text :: "int \<Rightarrow> string" where
  "number_text i = (if 0 \<le> i then decimal (nat i) else CHR ''-'' # decimal (nat (- i)))"

text \<open>
  \<^verbatim>\<open>_.filter(collection, predicate)\<close> returns an array of the values that satisfy the
  predicate, also when the collection is an object; \<^verbatim>\<open>_.keys(array)\<close> returns the
  indices of the array as strings; \<^verbatim>\<open>_.uniq\<close> keeps the first occurrence of each element.
\<close>

definition lodash_filter :: "logtable \<Rightarrow> (logtype \<Rightarrow> bool) \<Rightarrow> logtype list" where
  "lodash_filter table p = filter p (map snd table)"

definition lodash_keys :: "'a list \<Rightarrow> string list" where
  "lodash_keys arr = map decimal [0..<length arr]"

fun uniq :: "'a list \<Rightarrow> 'a list" where
  "uniq [] = []"
| "uniq (x # xs) = x # uniq (filter (\<lambda>y. y \<noteq> x) xs)"

text \<open>\<^verbatim>\<open>getLogFilter(options)\<close>; \<^verbatim>\<open>if (options.logLevel)\<close> holds for a number other than 0.\<close>

definition getLogFilter :: "logtable \<Rightarrow> options \<Rightarrow> string list" where
  "getLogFilter logTypes opts =
     (let types = (case opt_logTypes opts of None \<Rightarrow> [] | Some ts \<Rightarrow> ts);
          types' = (case opt_logLevel opts of
                      None \<Rightarrow> types
                    | Some logLevel \<Rightarrow>
                        if logLevel \<noteq> 0
                        then types @ lodash_keys (lodash_filter logTypes (\<lambda>type. level type \<ge> logLevel))
                        else types)
      in uniq types')"

text \<open>
  The claim's reading of the filter, in the spec's words: the explicit types together with
  the names of the table's entries whose level is at least \<^verbatim>\<open>logLevel\<close>.
\<close>

definition spec_log_filter :: "logtable \<Rightarrow> string list \<Rightarrow> int \<Rightarrow> string set" where
  "spec_log_filter table types logLevel =
     set types \<union> set (map fst (filter (\<lambda>e. level (snd e) \<ge> logLevel) table))"

section \<open>processor.js: one run\<close>

text \<open>
  A log record; \<open>date\<close> is \<^verbatim>\<open>new Date(record.date).getTime()\<close>, in milliseconds.
\<close>

record log =
  ident :: string
  date :: int

text \<open>
  The stream of \<^verbatim>\<open>./stream\<close> is not among the sources. The run reads three properties of
  it, which form the record \<open>stream\<close>, calls \<^verbatim>\<open>next\<close>, \<^verbatim>\<open>done\<close> and \<^verbatim>\<open>batchSaved\<close> on
  it, and reacts to its three events. The calls are recorded in the run's state; the
  events, each with the stream's properties at the moment it fires, are the input of
  the run.
\<close>

record stream =
  status :: status
  previousCheckpoint :: checkpoint
  lastCheckpoint :: checkpoint

datatype stream_call = Next int | Done | BatchSaved

datatype event = Data "log list" | End | Error jserror

text \<open>How the promise returned by \<^verbatim>\<open>run\<close> is settled.\<close>

datatype outcome = Resolved status checkpoint | Rejected jserror

text \<open>
  What a run is given. \<open>handler n batch\<close> is what the \<open>n\<close>-th invocation of
  \<^verbatim>\<open>handler.onLogsReceived\<close> passes to its callback (\<open>None\<close>: no error), \<open>clock n\<close> is the
  \<open>n\<close>-th reading of \<^verbatim>\<open>new Date().getTime()\<close>, \<open>batchSaved\<close> is the effect of
  \<^verbatim>\<open>stream.batchSaved()\<close> on the stream's properties, \<open>byteLength\<close> and \<open>limit\<close> belong
  to the store, and the last three are the numbers \<^verbatim>\<open>run\<close> reads from
  \<^verbatim>\<open>self.options\<close>.
\<close>

record run_env =
  handler :: "nat \<Rightarrow> log list \<Rightarrow> jserror option"
  clock :: "nat \<Rightarrow> int"
  batchSaved :: "stream \<Rightarrow> stream"
  byteLength :: "document \<Rightarrow> nat"
  limit :: int
  batchSize :: int
  maxRetries :: int
  maxRunTimeSeconds :: int

text \<open>
  The variables of the closure of \<^verbatim>\<open>run\<close>, the document store, and the trace of what the
  run did to its collaborators: \<open>ticks\<close> counts the clock readings, \<open>received\<close> lists the
  batches handed to the handler, \<open>streamCalls\<close> the calls on the stream and \<open>doneCalls\<close>
  the invocations of the store's \<^verbatim>\<open>done\<close>.
\<close>

record run_state =
  start :: int
  ticks :: nat
  retries :: int
  lastLogDate :: int
  logsBatch :: "log list"
  received :: "log list list"
  streamCalls :: "stream_call list"
  doneCalls :: "(status \<times> checkpoint) list"
  store :: docstore

type_synonym result = "outcome option \<times> run_state"

text \<open>\<^verbatim>\<open>hasTimeLeft(start)\<close>, with the clock reading \<open>now\<close> passed in.\<close>

definition hasTimeLeft :: "run_env \<Rightarrow> int \<Rightarrow> int \<Rightarrow> bool" where
  "hasTimeLeft env start0 now = ((start0 + maxRunTimeSeconds env) * 1000 \<ge> now)"

definition getNextLimit :: "run_env \<Rightarrow> run_state \<Rightarrow> int" where
  "getNextLimit env st =
     (let limit0 = batchSize env - int (length (logsBatch st))
      in if limit0 > 100 then 100 else limit0)"

text \<open>\<^verbatim>\<open>handler.onLogsReceived(logsBatch, callback)\<close>: the value passed to the callback.\<close>

definition onLogsReceived :: "run_env \<Rightarrow> run_state \<Rightarrow> jserror option \<times> run_state" where
  "onLogsReceived env st =
     (handler env (length (received st)) (logsBatch st),
      st\<lparr>received := received st @ [logsBatch st]\<rparr>)"

definition call_stream :: "stream_call list \<Rightarrow> run_state \<Rightarrow> run_state" where
  "call_stream calls st = st\<lparr>streamCalls := streamCalls st @ calls\<rparr>"

text \<open>
  \<^verbatim>\<open>runFailed(error, status, checkpoint)\<close>: when \<^verbatim>\<open>storage.done\<close> is rejected, the run is
  rejected with the store's error in place of \<open>err\<close>. The \<^verbatim>\<open>storage\<close> of the processor is
  the checkpoint store, whose \<^verbatim>\<open>done\<close> is the one of Auth0Storage.js.
\<close>

definition runFailed :: "run_env \<Rightarrow> jserror \<Rightarrow> status \<Rightarrow> checkpoint \<Rightarrow> run_state \<Rightarrow> result" where
  "runFailed env err stat cp st =
     (let stat1 = stat\<lparr>error := Some err\<rparr>;
          st1 = st\<lparr>doneCalls := doneCalls st @ [(stat1, cp)]\<rparr>
      in case Auth0Storage_done (byteLength env) (limit env) (store st) stat1 cp of
           Inl e \<Rightarrow> (Some (Rejected e), st1)
         | Inr (store', stat2) \<Rightarrow> (Some (Rejected err), st1\<lparr>store := store'\<rparr>))"

definition runSuccess :: "run_env \<Rightarrow> status \<Rightarrow> checkpoint \<Rightarrow> run_state \<Rightarrow> result" where
  "runSuccess env stat cp st =
     (if logsProcessed stat > 0 then
        (let week = 604800000;
             currentDate = clock env (ticks st);
             st1 = st\<lparr>ticks := ticks st + 1\<rparr>;
             timeDiff = currentDate - lastLogDate st;
             stat1 = (if timeDiff \<ge> week then stat\<lparr>warning := Some (Outdated (lastLogDate st))\<rparr>
                      else stat);
             st2 = st1\<lparr>doneCalls := doneCalls st1 @ [(stat1, cp)]\<rparr>
         in case Auth0Storage_done (byteLength env) (limit env) (store st) stat1 cp of
              Inl e \<Rightarrow> (Some (Rejected e), st2)
            | Inr (store', stat2) \<Rightarrow> (Some (Resolved stat2 cp), st2\<lparr>store := store'\<rparr>))
      else (Some (Resolved stat cp), st))"

text \<open>The message of the array built by \<^verbatim>\<open>retryProcess\<close> when it gives up.\<close>

fun string_of_checkpoint :: "checkpoint \<Rightarrow> string" where
  "string_of_checkpoint Undefined = ''undefined''"
| "string_of_checkpoint Null = ''null''"
| "string_of_checkpoint (Str s) = s"

definition skipMessage :: "run_env \<Rightarrow> stream \<Rightarrow> string" where
  "skipMessage env s =
     ''Skipping logs from '' @ string_of_checkpoint (previousCheckpoint s) @ '' to '' @
     string_of_checkpoint (lastCheckpoint s) @ '' after '' @ number_text (maxRetries env) @
     '' retries.''"

text \<open>
  \<^verbatim>\<open>retryProcess(err, stream, handleError)\<close>. The callback \<^verbatim>\<open>handleError\<close> is the
  \<^verbatim>\<open>processComplete\<close> that called it: with an error it calls \<^verbatim>\<open>retryProcess\<close> again,
  without one it continues with its own success path \<open>k\<close>.
\<close>

function retryProcess ::
  "run_env \<Rightarrow> stream \<Rightarrow> (run_state \<Rightarrow> result) \<Rightarrow> jserror \<Rightarrow> run_state \<Rightarrow> result" where
  "retryProcess env s k err st =
     (if \<not> hasTimeLeft env (start st) (clock env (ticks st))
      then runFailed env err (status s) (previousCheckpoint s) (st\<lparr>ticks := ticks st + 1\<rparr>)
      else if retries st < maxRetries env
      then (case handler env (length (received st)) (logsBatch st) of
              Some err' \<Rightarrow>
                retryProcess env s k err'
                  (st\<lparr>ticks := ticks st + 1, retries := retries st + 1,
                      received := received st @ [logsBatch st]\<rparr>)
            | None \<Rightarrow>
                k (st\<lparr>ticks := ticks st + 1, retries := retries st + 1,
                      received := received st @ [logsBatch st]\<rparr>))
      else runFailed env (SkipRange (skipMessage env s) err) (status s) (lastCheckpoint s)
             (st\<lparr>ticks := ticks st + 1\<rparr>))"
  by pat_completeness auto
termination
  by (relation "measure (\<lambda>(env, s, k, err, st). nat (maxRetries env - retries st))") auto

declare retryProcess.simps [simp del]

definition processComplete ::
  "run_env \<Rightarrow> stream \<Rightarrow> (run_state \<Rightarrow> result) \<Rightarrow> jserror option \<Rightarrow> run_state \<Rightarrow> result" where
  "processComplete env s k err st =
     (case err of Some e \<Rightarrow> retryProcess env s k e st | None \<Rightarrow> k st)"

text \<open>The success path of \<^verbatim>\<open>processComplete\<close> in the \<^verbatim>\<open>data\<close> listener.\<close>

definition dataAccepted :: "run_env \<Rightarrow> run_state \<Rightarrow> result" where
  "dataAccepted env st =
     (let st1 = st\<lparr>logsBatch := [], ticks := ticks st + 1\<rparr>
      in if \<not> hasTimeLeft env (start st) (clock env (ticks st))
         then (None, call_stream [Done] st1)
         else (None, call_stream [BatchSaved, Next (getNextLimit env st1)] st1))"

text \<open>The \<^verbatim>\<open>data\<close> listener.\<close>

definition onData :: "run_env \<Rightarrow> stream \<Rightarrow> log list \<Rightarrow> run_state \<Rightarrow> result" where
  "onData env s page st =
     (let st1 = st\<lparr>logsBatch := logsBatch st @ page\<rparr>;
          st2 = (if page \<noteq> [] then st1\<lparr>lastLogDate := date (last page)\<rparr> else st1)
      in if int (length (logsBatch st2)) < batchSize env
         then (None, call_stream [Next (getNextLimit env st2)] st2)
         else (case onLogsReceived env st2 of
                 (err, st3) \<Rightarrow> processComplete env s (dataAccepted env) err st3))"

text \<open>
  The success path of \<^verbatim>\<open>processComplete\<close> in the \<^verbatim>\<open>end\<close> listener: \<^verbatim>\<open>runSuccess\<close> reads
  the stream after \<^verbatim>\<open>stream.batchSaved()\<close>.
\<close>

definition endAccepted :: "run_env \<Rightarrow> stream \<Rightarrow> run_state \<Rightarrow> result" where
  "endAccepted env s st =
     runSuccess env (status (batchSaved env s)) (lastCheckpoint (batchSaved env s))
       (call_stream [BatchSaved] st)"

definition onEnd :: "run_env \<Rightarrow> stream \<Rightarrow> run_state \<Rightarrow> result" where
  "onEnd env s st =
     (case onLogsReceived env st of
        (err, st1) \<Rightarrow> processComplete env s (endAccepted env s) err st1)"

definition onError :: "run_env \<Rightarrow> stream \<Rightarrow> jserror \<Rightarrow> run_state \<Rightarrow> result" where
  "onError env s err st = runFailed env err (status s) (previousCheckpoint s) st"

fun dispatch :: "run_env \<Rightarrow> event \<Rightarrow> stream \<Rightarrow> run_state \<Rightarrow> result" where
  "dispatch env (Data page) s st = onData env s page st"
| "dispatch env End s st = onEnd env s st"
| "dispatch env (Error err) s st = onError env s err st"

text \<open>
  The listeners run one event at a time, until one of them settles the promise. A run
  whose events end before that is still pending: its outcome is \<open>None\<close>.
\<close>

fun handle_events :: "run_env \<Rightarrow> (event \<times> stream) list \<Rightarrow> run_state \<Rightarrow> result" where
  "handle_events env [] st = (None, st)"
| "handle_events env ((ev, s) # rest) st =
     (case dispatch env ev s st of
        (None, st') \<Rightarrow> handle_events env rest st'
      | (Some out, st') \<Rightarrow> (Some out, st'))"

text \<open>
  \<^verbatim>\<open>createStream(options)\<close>: the arguments the stream is constructed with.
\<close>

record stream_args =
  arg_checkpointId :: checkpoint
  arg_types :: "string list"

definition createStream :: "logtable \<Rightarrow> docstore \<Rightarrow> options \<Rightarrow> jserror + stream_args" where
  "createStream logTypes store0 opts =
     (case Auth0Storage_getCheckpoint store0 (opt_startFrom opts) of
        Inl e \<Rightarrow> Inl e
      | Inr startCheckpoint \<Rightarrow>
          Inr \<lparr>arg_checkpointId = startCheckpoint, arg_types = getLogFilter logTypes opts\<rparr>)"

text \<open>
  \<^verbatim>\<open>run(handler)\<close>: the closure variables are initialised, the first page is requested,
  and the events are handled. The result of \<^verbatim>\<open>createStream\<close> goes to the constructor of
  the stream and nowhere else, so the run starts where the stream exists.
\<close>

definition initial_state :: "run_env \<Rightarrow> docstore \<Rightarrow> run_state" where
  "initial_state env store0 =
     \<lparr>start = clock env 0, ticks = 1, retries = 0, lastLogDate = 0, logsBatch = [],
      received = [], streamCalls = [], doneCalls = [], store = store0\<rparr>"

definition run :: "run_env \<Rightarrow> (event \<times> stream) list \<Rightarrow> docstore \<Rightarrow> result" where
  "run env events store0 =
     handle_events env events
       (call_stream [Next (getNextLimit env (initial_state env store0))]
          (initial_state env store0))"

section \<open>Concrete collaborators for closed evaluations\<close>

text \<open>
  Handlers and clocks with a fixed behaviour: a handler that reports the same error at
  every invocation, one that accepts every batch, one that answers its first
  invocations from a script and all later ones with \<open>rest\<close>; a clock whose first
  reading is \<open>t0\<close> and whose later readings are \<open>t1\<close>.
\<close>

definition failing_handler :: "jserror \<Rightarrow> nat \<Rightarrow> log list \<Rightarrow> jserror option" where
  "failing_handler e n batch = Some e"

definition accepting_handler :: "nat \<Rightarrow> log list \<Rightarrow> jserror option" where
  "accepting_handler n batch = None"


definition stepping_clock :: "int \<Rightarrow> int \<Rightarrow> nat \<Rightarrow> int" where
  "stepping_clock t0 t1 n = (if n = 0 then t0 else t1)"

text \<open>A clock whose first readings are those of a list and whose later readings are \<open>rest\<close>.\<close>

definition scripted_clock :: "int list \<Rightarrow> int \<Rightarrow> nat \<Rightarrow> int" where
  "scripted_clock readings rest n = (if n < length readings then readings ! n else rest)"

text \<open>
  Modelled from the spec: \<^verbatim>\<open>stream.batchSaved()\<close> of \<^verbatim>\<open>./stream\<close>, which is not among the
  sources. The spec says it acknowledges that the current checkpoint position is
  durable and safe to resume from: the previous checkpoint becomes the last one.
\<close>

definition mark_saved :: "stream \<Rightarrow> stream" where
  "mark_saved s = s\<lparr>previousCheckpoint := lastCheckpoint s\<rparr>"

text \<open>
  The environment of a run of a processor built by the constructor: the three numbers
  are those the constructor leaves in \<^verbatim>\<open>this.options\<close>, the store has the default limit.
\<close>

definition constructed_env ::
  "(nat \<Rightarrow> log list \<Rightarrow> jserror option) \<Rightarrow> (nat \<Rightarrow> int) \<Rightarrow> nat \<Rightarrow> run_env" where
  "constructed_env h c bytes =
     \<lparr>handler = h, clock = c, batchSaved = mark_saved, byteLength = reported_size bytes,
      limit = 400, batchSize = 100, maxRetries = 5, maxRunTimeSeconds = 20\<rparr>"

text \<open>A page of one hundred records that are all \<open>r\<close>, and the empty document \<^verbatim>\<open>{}\<close>.\<close>

definition full_page :: "log \<Rightarrow> log list" where
  "full_page r = replicate 100 r"

definition empty_document :: document where
  "empty_document = \<lparr>checkpointId = Undefined, logs = None\<rparr>"

text \<open>
  Two records, the stream's properties after a first page of \<open>first_record\<close>s and after a
  second page of \<open>second_record\<close>s, and the stream's properties when the source has
  nothing to deliver.
\<close>

definition first_record :: log where
  "first_record = \<lparr>ident = ''l1'', date = 1000\<rparr>"


definition fresh_status :: "nat \<Rightarrow> status" where
  "fresh_status n = \<lparr>logsProcessed = n, error = None, warning = None, checkpoint = Undefined\<rparr>"

definition first_stream :: stream where
  "first_stream = \<lparr>status = fresh_status 100, previousCheckpoint = Null, lastCheckpoint = Str ''l1''\<rparr>"


definition idle_stream :: stream where
  "idle_stream =
     \<lparr>status = fresh_status 0, previousCheckpoint = Str ''l0'', lastCheckpoint = Str ''l0''\<rparr>"

section \<open>What a run leaves untouched\<close>

text \<open>
  \<open>kept st st'\<close>: the document store and the list of \<^verbatim>\<open>done\<close> invocations are the same in
  both states. \<open>quiet st r\<close>: the result \<open>r\<close> has left them as they were in \<open>st\<close>, unless
  it is a rejection or a resolution that reports processed records.
\<close>

definition kept :: "run_state \<Rightarrow> run_state \<Rightarrow> bool" where
  "kept st st' = (store st' = store st \<and> doneCalls st' = doneCalls st)"

definition quiet :: "run_state \<Rightarrow> result \<Rightarrow> bool" where
  "quiet st r =
     (case fst r of
        None \<Rightarrow> kept st (snd r)
      | Some (Rejected e) \<Rightarrow> True
      | Some (Resolved stat cp) \<Rightarrow> logsProcessed stat = 0 \<longrightarrow> kept st (snd r))"

section \<open>Properties of the checkpoint store\<close>

text \<open>
  C7. \<^verbatim>\<open>getCheckpoint(fallback)\<close> never fails, also when the read yields no document, and
  returns in priority order the persisted \<^verbatim>\<open>checkpointId\<close> when the document has one, else
  the fallback when one was supplied, else \<^verbatim>\<open>null\<close>. A value counts as present when it
  is truthy, that is a non-empty string.
\<close>

theorem getCheckpoint_priority:
  "Auth0Storage_getCheckpoint stored fallback =
     Inr (case stored of
            None \<Rightarrow> if truthy fallback then fallback else Null
          | Some data \<Rightarrow>
              if truthy (checkpointId data) then checkpointId data
              else if truthy fallback then fallback else Null)"
  by (simp add: Auth0Storage_getCheckpoint_def js_or_def split: option.split)

text \<open>
  C6. The claim is that \<^verbatim>\<open>done(status, checkpoint)\<close> succeeds when the read yields no
  document and creates the document on that first write. The code does not: with no
  document it is rejected with the \<open>TypeError\<close> of reading \<^verbatim>\<open>data.logs\<close>, for every
  status, checkpoint, limit and size measurement, and nothing is written.
\<close>

theorem done_rejects_missing_document:
  "Auth0Storage_done measure_bytes lim None st cp = Inl TypeError"
  by (simp add: Auth0Storage_done_def)

text \<open>
  C3, as amended. The limit defaults to 400. For every stored document that exists and
  every status and checkpoint, \<^verbatim>\<open>done\<close> splits the stored entries into the evicted oldest
  ones and the kept ones; the number evicted is five, or all of them when there are
  fewer than five, if the measured size is at least \<open>limit * 1024\<close> and there is at least
  one entry, and none otherwise. In all cases the status, with its checkpoint set, is
  appended to the kept entries, \<^verbatim>\<open>checkpointId\<close> is set to the checkpoint and the document
  is written back.
\<close>

theorem done_trims_oldest:
  "Auth0Storage_limit None = 400 \<and>
   (\<exists>evicted remaining.
      stored_logs data = evicted @ remaining \<and>
      length evicted =
        (if lim * 1024 \<le> int (measure_bytes data) \<and> stored_logs data \<noteq> []
         then min 5 (length (stored_logs data)) else 0) \<and>
      Auth0Storage_done measure_bytes lim (Some data) st cp =
        Inr (Some (data\<lparr>logs := Some (remaining @ [st\<lparr>checkpoint := cp\<rparr>]),
                        checkpointId := cp\<rparr>),
             st\<lparr>checkpoint := cp\<rparr>))"
proof -
  let ?old = "stored_logs data"
  let ?k = "if lim * 1024 \<le> int (measure_bytes data) \<and> ?old \<noteq> [] then 5 else (0::nat)"
  have parts: "?old = take ?k ?old @ drop ?k ?old"
    by simp
  have count: "length (take ?k ?old) =
      (if lim * 1024 \<le> int (measure_bytes data) \<and> ?old \<noteq> [] then min 5 (length ?old) else 0)"
    by (simp add: min.commute)
  have written: "Auth0Storage_done measure_bytes lim (Some data) st cp =
       Inr (Some (data\<lparr>logs := Some (drop ?k ?old @ [st\<lparr>checkpoint := cp\<rparr>]),
                       checkpointId := cp\<rparr>),
            st\<lparr>checkpoint := cp\<rparr>)"
    by (simp add: Auth0Storage_done_def Let_def)
  have "Auth0Storage_limit None = 400"
    by (simp add: Auth0Storage_limit_def)
  with parts count written show ?thesis
    by blast
qed

text \<open>
  The claim as stated fails on a document with three entries and a limit of 0: the size
  is at or above the limit and the sequence is not empty, yet three entries are evicted,
  not five, and the written sequence holds the new status alone.
\<close>

theorem done_evicts_three_counterexample:
  "(0::int) * 1024 \<le> int (reported_size 144
      \<lparr>checkpointId = Str ''c3'', logs = Some
        [\<lparr>logsProcessed = 1, error = None, warning = None, checkpoint = Str ''c1''\<rparr>,
         \<lparr>logsProcessed = 1, error = None, warning = None, checkpoint = Str ''c2''\<rparr>,
         \<lparr>logsProcessed = 1, error = None, warning = None, checkpoint = Str ''c3''\<rparr>]\<rparr>) \<and>
   length (stored_logs
      \<lparr>checkpointId = Str ''c3'', logs = Some
        [\<lparr>logsProcessed = 1, error = None, warning = None, checkpoint = Str ''c1''\<rparr>,
         \<lparr>logsProcessed = 1, error = None, warning = None, checkpoint = Str ''c2''\<rparr>,
         \<lparr>logsProcessed = 1, error = None, warning = None, checkpoint = Str ''c3''\<rparr>]\<rparr>) = 3 \<and>
   Auth0Storage_done (reported_size 144) 0
     (Some \<lparr>checkpointId = Str ''c3'', logs = Some
        [\<lparr>logsProcessed = 1, error = None, warning = None, checkpoint = Str ''c1''\<rparr>,
         \<lparr>logsProcessed = 1, error = None, warning = None, checkpoint = Str ''c2''\<rparr>,
         \<lparr>logsProcessed = 1, error = None, warning = None, checkpoint = Str ''c3''\<rparr>]\<rparr>)
     \<lparr>logsProcessed = 1, error = None, warning = None, checkpoint = Undefined\<rparr> (Str ''c4'')
   = Inr (Some \<lparr>checkpointId = Str ''c4'', logs = Some
        [\<lparr>logsProcessed = 1, error = None, warning = None, checkpoint = Str ''c4''\<rparr>]\<rparr>,
        \<lparr>logsProcessed = 1, error = None, warning = None, checkpoint = Str ''c4''\<rparr>)"
  by (simp add: Auth0Storage_done_def stored_logs_def reported_size_def Let_def)

section \<open>Properties of the constructor and the log filter\<close>

lemma LogsProcessor_options_fixed:
  assumes "LogsProcessor (Some supplied) = Inr self"
  shows "opt_batchSize (options self) = Some 100"
    and "opt_maxRetries (options self) = Some 5"
    and "opt_maxRunTimeSeconds (options self) = Some 20"
  using assms
  by (auto simp add: LogsProcessor_def assign_def overwrite_def defaults_def empty_object_def)

text \<open>
  C1. The claim is that the three numbers equal the supplied values when these are
  present. The code does not do that: the literal with 100, 5 and 20 is the last source
  of \<^verbatim>\<open>_.assign\<close>, so it overwrites what the caller supplied. With batchSize 10,
  maxRetries 2 and maxRunTimeSeconds 60 supplied, the processor holds 100, 5 and 20.
\<close>

theorem LogsProcessor_overwrites_supplied:
  "LogsProcessor (Some (empty_object\<lparr>opt_batchSize := Some 10, opt_maxRetries := Some 2,
       opt_maxRunTimeSeconds := Some 60\<rparr>))
   = Inr \<lparr>storageLimit = 400,
          options = empty_object\<lparr>opt_batchSize := Some 100, opt_maxRetries := Some 5,
                      opt_maxRunTimeSeconds := Some 20\<rparr>\<rparr>"
  by (simp add: LogsProcessor_def assign_def overwrite_def defaults_def empty_object_def
      Auth0Storage_limit_def)

lemma getLogFilter_result:
  assumes "opt_logLevel opts = Some l" and "l \<noteq> 0"
  shows "getLogFilter table opts =
     uniq ((case opt_logTypes opts of None \<Rightarrow> [] | Some ts \<Rightarrow> ts) @
           map decimal [0..<length (filter (\<lambda>e. l \<le> level (snd e)) table)])"
  using assms
  by (simp add: getLogFilter_def lodash_keys_def lodash_filter_def Let_def filter_map o_def)

text \<open>
  C2. The claim is that the filter is the union of the explicit types and the names of
  the table's entries at or above the level, \<open>{a, b, c}\<close> in the example. The code
  returns the explicit types followed by the array indices of the selected entries: in
  the example \<open>a\<close>, \<open>0\<close> and \<open>1\<close>, which is not the set of the claim.
\<close>

theorem getLogFilter_returns_indices:
  "getLogFilter [(''a'', \<lparr>level = 1\<rparr>), (''b'', \<lparr>level = 2\<rparr>), (''c'', \<lparr>level = 3\<rparr>)]
     (empty_object\<lparr>opt_logTypes := Some [''a''], opt_logLevel := Some 2\<rparr>) = [''a'', ''0'', ''1''] \<and>
   spec_log_filter [(''a'', \<lparr>level = 1\<rparr>), (''b'', \<lparr>level = 2\<rparr>), (''c'', \<lparr>level = 3\<rparr>)] [''a''] 2
     = {''a'', ''b'', ''c''} \<and>
   set (getLogFilter [(''a'', \<lparr>level = 1\<rparr>), (''b'', \<lparr>level = 2\<rparr>), (''c'', \<lparr>level = 3\<rparr>)]
     (empty_object\<lparr>opt_logTypes := Some [''a''], opt_logLevel := Some 2\<rparr>)) \<noteq> {''a'', ''b'', ''c''}"
proof -
  have code: "getLogFilter [(''a'', \<lparr>level = 1\<rparr>), (''b'', \<lparr>level = 2\<rparr>), (''c'', \<lparr>level = 3\<rparr>)]
     (empty_object\<lparr>opt_logTypes := Some [''a''], opt_logLevel := Some 2\<rparr>) = [''a'', ''0'', ''1'']"
    by (simp add: getLogFilter_def lodash_keys_def lodash_filter_def empty_object_def upt_rec digit_def)
  have spec: "spec_log_filter [(''a'', \<lparr>level = 1\<rparr>), (''b'', \<lparr>level = 2\<rparr>), (''c'', \<lparr>level = 3\<rparr>)]
      [''a''] 2 = {''a'', ''b'', ''c''}"
    by (auto simp add: spec_log_filter_def)
  have outside: "''0'' \<notin> {''a'', ''b'', ''c''}"
    by simp
  have inside: "''0'' \<in> set [''a'', ''0'', ''1'']"
    by simp
  have differ: "set [''a'', ''0'', ''1''] \<noteq> {''a'', ''b'', ''c''}"
  proof
    assume "set [''a'', ''0'', ''1''] = {''a'', ''b'', ''c''}"
    with inside have "''0'' \<in> {''a'', ''b'', ''c''}"
      by (simp only:)
    with outside show False
      by (simp only: not_True_eq_False)
  qed
  show ?thesis
    unfolding code using spec differ by (simp only: simp_thms)
qed

section \<open>Properties of one run\<close>

text \<open>
  C10. The page size requested is the minimum of 100 and the room left in the batch; it
  exceeds neither.
\<close>

theorem getNextLimit_min:
  "getNextLimit env st = min 100 (batchSize env - int (length (logsBatch st))) \<and>
   getNextLimit env st \<le> 100 \<and>
   getNextLimit env st \<le> batchSize env - int (length (logsBatch st))"
  by (simp add: getNextLimit_def Let_def min_def)

subsection \<open>Concluding a failed run, and the retry loop\<close>

lemma full_page_length: "length (full_page r) = 100"
  by (simp add: full_page_def)


lemma runFailed_rejects:
  "\<exists>e st'. runFailed env err stat cp st = (Some (Rejected e), st') \<and>
     received st' = received st \<and> retries st' = retries st \<and>
     streamCalls st' = streamCalls st \<and>
     doneCalls st' = doneCalls st @ [(stat\<lparr>error := Some err\<rparr>, cp)] \<and>
     (case store st of
        None \<Rightarrow> e = TypeError \<and> store st' = None
      | Some d \<Rightarrow> e = err \<and> (\<exists>d'. store st' = Some d' \<and> checkpointId d' = cp))"
  by (cases "store st") (simp_all add: runFailed_def Auth0Storage_done_def Let_def)


lemma retryProcess_times_out:
  "logsBatch st = batch \<Longrightarrow> start st = origin \<Longrightarrow>
   (\<forall>i<j. handler env (length (received st) + i) batch \<noteq> None) \<Longrightarrow>
   (\<forall>i<j. hasTimeLeft env origin (clock env (ticks st + i))) \<Longrightarrow>
   retries st + int j \<le> maxRetries env \<Longrightarrow>
   \<not> hasTimeLeft env origin (clock env (ticks st + j)) \<Longrightarrow>
   retryProcess env s k err st =
     runFailed env
       (if j = 0 then err else the (handler env (length (received st) + j - 1) batch))
       (status s) (previousCheckpoint s)
       (st\<lparr>ticks := ticks st + j + 1, retries := retries st + int j,
           received := received st @ replicate j batch\<rparr>)"
proof (induction j arbitrary: st err)
  case 0
  have same: "st\<lparr>ticks := ticks st + 0 + 1, retries := retries st + int 0,
              received := received st @ replicate 0 batch\<rparr> = st\<lparr>ticks := ticks st + 1\<rparr>"
    by simp
  have "retryProcess env s k err st =
      runFailed env err (status s) (previousCheckpoint s) (st\<lparr>ticks := ticks st + 1\<rparr>)"
    using "0.prems"(2,6) by (subst retryProcess.simps) simp
  then show ?case
    unfolding same by simp
next
  case (Suc j)
  have again: "retries st < maxRetries env"
    using Suc.prems(5) by simp
  have now: "hasTimeLeft env (start st) (clock env (ticks st))"
    using Suc.prems(4) [rule_format, of 0] Suc.prems(2) by simp
  obtain err' where h: "handler env (length (received st)) batch = Some err'"
    using Suc.prems(3) [rule_format, of 0] by auto
  let ?st = "st\<lparr>ticks := ticks st + 1, retries := retries st + 1,
                      received := received st @ [logsBatch st]\<rparr>"
  have step: "retryProcess env s k err st = retryProcess env s k err' ?st"
    using again h now Suc.prems(1) by (subst retryProcess.simps) simp
  have fails': "\<forall>i<j. handler env (length (received ?st) + i) batch \<noteq> None"
  proof (intro allI impI)
    fix i assume "i < j"
    then have "Suc i < Suc j" by simp
    from Suc.prems(3) [rule_format, OF this] show "handler env (length (received ?st) + i) batch \<noteq> None"
      by simp
  qed
  have time': "\<forall>i<j. hasTimeLeft env origin (clock env (ticks ?st + i))"
  proof (intro allI impI)
    fix i assume "i < j"
    then have "Suc i < Suc j" by simp
    from Suc.prems(4) [rule_format, OF this] show "hasTimeLeft env origin (clock env (ticks ?st + i))"
      by simp
  qed
  have late': "\<not> hasTimeLeft env origin (clock env (ticks ?st + j))"
    using Suc.prems(6) by simp
  have r: "retryProcess env s k err' ?st =
        runFailed env
          (if j = 0 then err' else the (handler env (length (received ?st) + j - 1) batch))
          (status s) (previousCheckpoint s)
          (?st\<lparr>ticks := ticks ?st + j + 1, retries := retries ?st + int j,
              received := received ?st @ replicate j batch\<rparr>)"
    using Suc.prems(1,2,5) fails' time' late' by (intro Suc.IH) simp_all
  have e: "(if j = 0 then err' else the (handler env (length (received ?st) + j - 1) batch))
      = the (handler env (length (received st) + Suc j - 1) batch)"
    using h by (cases j) simp_all
  have s: "?st\<lparr>ticks := ticks ?st + j + 1, retries := retries ?st + int j,
              received := received ?st @ replicate j batch\<rparr>
       = st\<lparr>ticks := ticks st + Suc j + 1, retries := retries st + int (Suc j),
              received := received st @ replicate (Suc j) batch\<rparr>"
    using Suc.prems(1) by (simp add: replicate_app_Cons_same)
  show ?case
    unfolding step r e s by simp
qed

subsection \<open>From the listeners to the retry loop\<close>

text \<open>
  A listener hands the batch to the handler and passes the answer to
  \<^verbatim>\<open>processComplete\<close>. When the answers are errors until the clock is past the budget,
  or until the retries are used up, the listener ends in \<^verbatim>\<open>runFailed\<close>.
\<close>

lemma deliver_times_out:
  assumes fails: "\<forall>i\<le>j. handler env (length (received st) + i) (logsBatch st) \<noteq> None"
    and time: "\<forall>i<j. hasTimeLeft env (start st) (clock env (ticks st + i))"
    and room: "retries st + int j \<le> maxRetries env"
    and late: "\<not> hasTimeLeft env (start st) (clock env (ticks st + j))"
  shows "processComplete env s k (fst (onLogsReceived env st)) (snd (onLogsReceived env st)) =
     runFailed env (the (handler env (length (received st) + j) (logsBatch st)))
       (status s) (previousCheckpoint s)
       (st\<lparr>ticks := ticks st + j + 1, retries := retries st + int j,
           received := received st @ replicate (Suc j) (logsBatch st)\<rparr>)"
proof -
  let ?batch = "logsBatch st"
  let ?st = "st\<lparr>received := received st @ [?batch]\<rparr>"
  obtain err0 where h: "handler env (length (received st)) ?batch = Some err0"
    using fails [rule_format, of 0] by auto
  have first: "processComplete env s k (fst (onLogsReceived env st)) (snd (onLogsReceived env st))
      = retryProcess env s k err0 ?st"
    using h by (simp add: processComplete_def onLogsReceived_def)
  have fails': "\<forall>i<j. handler env (length (received ?st) + i) ?batch \<noteq> None"
  proof (intro allI impI)
    fix i assume "i < j"
    then have "Suc i \<le> j" by simp
    from fails [rule_format, OF this] show "handler env (length (received ?st) + i) ?batch \<noteq> None"
      by simp
  qed
  have loop: "retryProcess env s k err0 ?st =
     runFailed env
       (if j = 0 then err0 else the (handler env (length (received ?st) + j - 1) ?batch))
       (status s) (previousCheckpoint s)
       (?st\<lparr>ticks := ticks ?st + j + 1, retries := retries ?st + int j,
           received := received ?st @ replicate j ?batch\<rparr>)"
    using fails' time room late
    by (intro retryProcess_times_out [where origin = "start st"]) simp_all
  have e: "(if j = 0 then err0 else the (handler env (length (received ?st) + j - 1) ?batch))
      = the (handler env (length (received st) + j) ?batch)"
    using h by (cases j) simp_all
  have s: "?st\<lparr>ticks := ticks ?st + j + 1, retries := retries ?st + int j,
           received := received ?st @ replicate j ?batch\<rparr>
      = st\<lparr>ticks := ticks st + j + 1, retries := retries st + int j,
           received := received st @ replicate (Suc j) ?batch\<rparr>"
    by simp
  show ?thesis
    unfolding first loop e s by simp
qed


text \<open>
  The state in which a listener hands the batch to the handler: the \<^verbatim>\<open>end\<close> listener
  delivers the batch as it is, the \<^verbatim>\<open>data\<close> listener delivers it with the page appended
  when that fills it.
\<close>

lemma dispatch_delivers:
  assumes "ev = End \<and> batch = logsBatch st \<or>
           ev = Data page \<and> batch = logsBatch st @ page \<and> batchSize env \<le> int (length batch)"
  shows "\<exists>k st0. dispatch env ev s st =
            processComplete env s k (fst (onLogsReceived env st0)) (snd (onLogsReceived env st0)) \<and>
          logsBatch st0 = batch \<and> received st0 = received st \<and> retries st0 = retries st \<and>
          ticks st0 = ticks st \<and> start st0 = start st \<and> doneCalls st0 = doneCalls st \<and>
          store st0 = store st \<and> streamCalls st0 = streamCalls st"
  using assms
proof (elim disjE conjE)
  assume "ev = End" and "batch = logsBatch st"
  then have "dispatch env ev s st =
      processComplete env s (endAccepted env s) (fst (onLogsReceived env st))
        (snd (onLogsReceived env st))"
    by (simp add: onEnd_def split_beta)
  with \<open>batch = logsBatch st\<close> show ?thesis
    by blast
next
  assume ev: "ev = Data page" and b: "batch = logsBatch st @ page"
    and full: "batchSize env \<le> int (length batch)"
  let ?st1 = "st\<lparr>logsBatch := logsBatch st @ page\<rparr>"
  let ?st2 = "if page \<noteq> [] then ?st1\<lparr>lastLogDate := date (last page)\<rparr> else ?st1"
  have batch2: "logsBatch ?st2 = batch"
    using b by simp
  have "dispatch env ev s st =
      processComplete env s (dataAccepted env) (fst (onLogsReceived env ?st2))
        (snd (onLogsReceived env ?st2))"
    using ev full batch2 by (simp add: onData_def Let_def split_beta)
  moreover have "received ?st2 = received st" "retries ?st2 = retries st" "ticks ?st2 = ticks st"
    "start ?st2 = start st" "doneCalls ?st2 = doneCalls st" "store ?st2 = store st"
    "streamCalls ?st2 = streamCalls st"
    by simp_all
  ultimately show ?thesis
    using batch2 by blast
qed

lemma handle_events_pending:
  "handle_events env pre st0 = (None, st) \<Longrightarrow>
   handle_events env (pre @ evs) st0 = handle_events env evs st"
proof (induction pre arbitrary: st0)
  case Nil
  then show ?case by simp
next
  case (Cons a pre)
  obtain ev s where a: "a = (ev, s)" by (cases a)
  obtain r st1 where d: "dispatch env ev s st0 = (r, st1)" by (cases "dispatch env ev s st0")
  show ?case
  proof (cases r)
    case None
    with Cons.prems a d have "handle_events env pre st1 = (None, st)" by simp
    then have "handle_events env (pre @ evs) st1 = handle_events env evs st" by (rule Cons.IH)
    with a d None show ?thesis by simp
  next
    case (Some out)
    with Cons.prems a d show ?thesis by simp
  qed
qed

lemma run_pending:
  assumes "run env pre store0 = (None, st)" and "dispatch env ev s st = (Some out, st')"
  shows "run env (pre @ (ev, s) # rest) store0 = (Some out, st')"
  using assms handle_events_pending [of env pre _ st "(ev, s) # rest"]
  by (simp add: run_def)

subsection \<open>What stays untouched until a run concludes\<close>

lemma quiet_runFailed: "quiet st0 (runFailed env err stat cp st)"
  by (simp add: quiet_def runFailed_def Let_def split: sum.split prod.split)

lemma quiet_runSuccess: "kept st0 st \<Longrightarrow> quiet st0 (runSuccess env stat cp st)"
  by (auto simp add: quiet_def runSuccess_def Let_def Auth0Storage_done_def split: sum.split prod.split option.split)

lemma quiet_retryProcess:
  assumes k: "\<And>st1. kept st0 st1 \<Longrightarrow> quiet st0 (k st1)"
  shows "kept st0 st \<Longrightarrow> quiet st0 (retryProcess env s k err st)"
proof (induction "nat (maxRetries env - retries st)" arbitrary: st err)
  case 0
  then have "\<not> retries st < maxRetries env" by simp
  then show ?case
    by (subst retryProcess.simps) (simp add: quiet_runFailed)
next
  case (Suc n)
  let ?st = "st\<lparr>ticks := ticks st + 1, retries := retries st + 1,
                      received := received st @ [logsBatch st]\<rparr>"
  have kp: "kept st0 ?st" using Suc.prems by (simp add: kept_def)
  have n: "n = nat (maxRetries env - retries ?st)" using Suc.hyps(2) by simp
  have rec: "quiet st0 (retryProcess env s k e ?st)" for e
    using Suc.hyps(1) [OF n kp] .
  have acc: "quiet st0 (k ?st)" using k [OF kp] .
  show ?case
    using rec acc by (subst retryProcess.simps) (simp add: quiet_runFailed split: option.split)
qed

lemma quiet_processComplete:
  assumes "\<And>st1. kept st0 st1 \<Longrightarrow> quiet st0 (k st1)" and "kept st0 st"
  shows "quiet st0 (processComplete env s k err st)"
  using assms by (simp add: processComplete_def quiet_retryProcess split: option.split)

lemma kept_call_stream: "kept st0 (call_stream cs st) = kept st0 st"
  by (simp add: kept_def call_stream_def)

lemma quiet_dataAccepted: "kept st0 st \<Longrightarrow> quiet st0 (dataAccepted env st)"
  by (simp add: dataAccepted_def quiet_def Let_def kept_call_stream) (simp add: kept_def)

lemma quiet_endAccepted: "kept st0 st \<Longrightarrow> quiet st0 (endAccepted env s st)"
  by (simp add: endAccepted_def quiet_runSuccess kept_call_stream)

lemma quiet_onData: "kept st0 st \<Longrightarrow> quiet st0 (onData env s page st)"
proof -
  assume kp: "kept st0 st"
  let ?st1 = "st\<lparr>logsBatch := logsBatch st @ page\<rparr>"
  let ?st2 = "if page \<noteq> [] then ?st1\<lparr>lastLogDate := date (last page)\<rparr> else ?st1"
  have k2: "kept st0 ?st2" using kp by (simp add: kept_def)
  have k3: "kept st0 (snd (onLogsReceived env ?st2))"
    using k2 by (simp add: onLogsReceived_def kept_def)
  have a: "quiet st0 (None, call_stream [Next (getNextLimit env ?st2)] ?st2)"
    using k2 by (simp add: quiet_def kept_call_stream)
  have b: "quiet st0 (processComplete env s (dataAccepted env) (fst (onLogsReceived env ?st2))
              (snd (onLogsReceived env ?st2)))"
    using k3 by (intro quiet_processComplete quiet_dataAccepted)
  show ?thesis
    unfolding onData_def Let_def using a b by (simp add: split_beta)
qed

lemma quiet_onEnd: "kept st0 st \<Longrightarrow> quiet st0 (onEnd env s st)"
proof -
  assume kp: "kept st0 st"
  have k1: "kept st0 (snd (onLogsReceived env st))"
    using kp by (simp add: onLogsReceived_def kept_def)
  have "quiet st0 (processComplete env s (endAccepted env s) (fst (onLogsReceived env st))
              (snd (onLogsReceived env st)))"
    using k1 by (intro quiet_processComplete quiet_endAccepted)
  then show ?thesis
    unfolding onEnd_def by (simp add: split_beta)
qed

lemma quiet_dispatch: "kept st0 st \<Longrightarrow> quiet st0 (dispatch env ev s st)"
  by (cases ev) (simp_all add: quiet_onData quiet_onEnd onError_def quiet_runFailed)

lemma quiet_handle_events: "kept st0 st \<Longrightarrow> quiet st0 (handle_events env events st)"
proof (induction events arbitrary: st)
  case Nil
  then show ?case by (simp add: quiet_def)
next
  case (Cons a events)
  obtain ev s where a: "a = (ev, s)" by (cases a)
  obtain r st' where d: "dispatch env ev s st = (r, st')" by (cases "dispatch env ev s st")
  have q: "quiet st0 (r, st')" using quiet_dispatch [OF Cons.prems, of env ev s] d by simp
  show ?case
  proof (cases r)
    case None
    with q have "kept st0 st'" by (simp add: quiet_def)
    then have "quiet st0 (handle_events env events st')" by (rule Cons.IH)
    with a d None show ?thesis by simp
  next
    case (Some out)
    with a d q show ?thesis by simp
  qed
qed

subsection \<open>The claims about a run\<close>

text \<open>
  C5. Take any run that is still pending and whose next event makes a listener hand the
  batch to the handler: the end of the stream, or a page that fills the batch. Let the
  handler report an error at this delivery and at the \<open>j\<close> redeliveries that follow while
  time remains, and let the clock be past the budget, that is
  \<open>(start + maxRunTimeSeconds) * 1000 < now\<close> and \<^verbatim>\<open>hasTimeLeft\<close> is false, when the last of
  these errors is reported. Then the run is rejected at once, whatever is left of the
  retries: the handler is not invoked again, no call goes to the stream, the counter stays
  where the \<open>j\<close> retries took it, and the store's \<^verbatim>\<open>done\<close> is invoked once, with the stream's status carrying
  the last error and with the stream's previous checkpoint. When the store holds a
  document the rejection is the handler's last error and the document's
  \<^verbatim>\<open>checkpointId\<close> becomes the previous checkpoint; when it holds none, the rejection is
  the store's error.
\<close>

theorem run_out_of_time:
  assumes pending: "run env pre store0 = (None, st)"
    and delivers: "ev = End \<and> batch = logsBatch st \<or>
       ev = Data page \<and> batch = logsBatch st @ page \<and> batchSize env \<le> int (length batch)"
    and fails: "\<forall>i\<le>j. handler env (length (received st) + i) batch \<noteq> None"
    and time: "\<forall>i<j. hasTimeLeft env (start st) (clock env (ticks st + i))"
    and room: "retries st + int j \<le> maxRetries env"
    and late: "(start st + maxRunTimeSeconds env) * 1000 < clock env (ticks st + j)"
  shows "\<not> hasTimeLeft env (start st) (clock env (ticks st + j)) \<and>
    (\<exists>e st'. run env (pre @ (ev, s) # rest) store0 = (Some (Rejected e), st') \<and>
       received st' = received st @ replicate (Suc j) batch \<and>
       retries st' = retries st + int j \<and>
       streamCalls st' = streamCalls st \<and>
       doneCalls st' =
         doneCalls st @
         [(status s\<lparr>error := handler env (length (received st) + j) batch\<rparr>,
           previousCheckpoint s)] \<and>
       (case store st of
          None \<Rightarrow> e = TypeError \<and> store st' = None
        | Some d \<Rightarrow>
            Some e = handler env (length (received st) + j) batch \<and>
            (\<exists>d'. store st' = Some d' \<and> checkpointId d' = previousCheckpoint s)))"
proof -
  from late have no_time: "\<not> hasTimeLeft env (start st) (clock env (ticks st + j))"
    by (simp add: hasTimeLeft_def)
  obtain k st0 where d: "dispatch env ev s st =
      processComplete env s k (fst (onLogsReceived env st0)) (snd (onLogsReceived env st0))"
    and same: "logsBatch st0 = batch" "received st0 = received st" "retries st0 = retries st"
      "ticks st0 = ticks st" "start st0 = start st" "doneCalls st0 = doneCalls st"
      "store st0 = store st" "streamCalls st0 = streamCalls st"
    using dispatch_delivers [OF delivers] by blast
  obtain err where last: "handler env (length (received st) + j) batch = Some err"
    using fails [rule_format, of j] by auto
  let ?st1 = "st0\<lparr>ticks := ticks st0 + j + 1, retries := retries st0 + int j,
           received := received st0 @ replicate (Suc j) (logsBatch st0)\<rparr>"
  have "processComplete env s k (fst (onLogsReceived env st0)) (snd (onLogsReceived env st0)) =
     runFailed env (the (handler env (length (received st0) + j) (logsBatch st0)))
       (status s) (previousCheckpoint s) ?st1"
    using fails time room no_time same by (intro deliver_times_out) simp_all
  with d last same have concluded:
    "dispatch env ev s st = runFailed env err (status s) (previousCheckpoint s) ?st1"
    by simp
  obtain e st' where r: "runFailed env err (status s) (previousCheckpoint s) ?st1
        = (Some (Rejected e), st')"
    and f: "received st' = received ?st1" "retries st' = retries ?st1"
      "doneCalls st' = doneCalls ?st1 @ [(status s\<lparr>error := Some err\<rparr>, previousCheckpoint s)]"
      "streamCalls st' = streamCalls ?st1"
    and c: "case store ?st1 of
        None \<Rightarrow> e = TypeError \<and> store st' = None
      | Some d \<Rightarrow> e = err \<and> (\<exists>d'. store st' = Some d' \<and> checkpointId d' = previousCheckpoint s)"
    using runFailed_rejects [of env err "status s" "previousCheckpoint s" ?st1]
    by blast
  have whole: "run env (pre @ (ev, s) # rest) store0 = (Some (Rejected e), st')"
    using run_pending [OF pending] concluded r by simp
  have c': "case store st of
        None \<Rightarrow> e = TypeError \<and> store st' = None
      | Some d \<Rightarrow> Some e = handler env (length (received st) + j) batch \<and>
          (\<exists>d'. store st' = Some d' \<and> checkpointId d' = previousCheckpoint s)"
    using c same(7) last by (simp split: option.splits)
  have "received st' = received st @ replicate (Suc j) batch"
    and "retries st' = retries st + int j"
    and "streamCalls st' = streamCalls st"
    and "doneCalls st' = doneCalls st @
         [(status s\<lparr>error := handler env (length (received st) + j) batch\<rparr>,
           previousCheckpoint s)]"
    using f same last by simp_all
  with no_time whole c' show ?thesis
    by blast
qed

text \<open>
  A run of a constructed processor that starts at clock reading 0: the first full page
  is refused, ten milliseconds later there is time left and the page is redelivered and
  refused again, and at 20001 ms the budget is past. Four retries are left; the run is
  rejected with the handler's error and the previous checkpoint is persisted.
\<close>

theorem run_out_of_time_witness:
  "run (constructed_env (failing_handler (Failure ''down'')) (scripted_clock [0, 10] 20001) 2)
       [] (Some empty_document)
     = (None,
        call_stream [Next 100]
          (initial_state
             (constructed_env (failing_handler (Failure ''down'')) (scripted_clock [0, 10] 20001) 2)
             (Some empty_document))) \<and>
   (\<exists>st' d'.
      run (constructed_env (failing_handler (Failure ''down'')) (scripted_clock [0, 10] 20001) 2)
        [(Data (full_page first_record), first_stream)] (Some empty_document)
      = (Some (Rejected (Failure ''down'')), st') \<and>
      received st' = [full_page first_record, full_page first_record] \<and>
      retries st' = 1 \<and>
      retries st' <
        maxRetries (constructed_env (failing_handler (Failure ''down'')) (scripted_clock [0, 10] 20001) 2) \<and>
      doneCalls st' = [((fresh_status 100)\<lparr>error := Some (Failure ''down'')\<rparr>, Null)] \<and>
      store st' = Some d' \<and> checkpointId d' = Null)"
proof -
  let ?env = "constructed_env (failing_handler (Failure ''down'')) (scripted_clock [0, 10] 20001) 2"
  let ?st = "call_stream [Next 100] (initial_state ?env (Some empty_document))"
  let ?batch = "full_page first_record"
  have pending: "run ?env [] (Some empty_document) = (None, ?st)"
    by (simp add: run_def getNextLimit_def initial_state_def constructed_env_def)
  have delivers: "Data ?batch = End \<and> ?batch = logsBatch ?st \<or>
       Data ?batch = Data ?batch \<and> ?batch = logsBatch ?st @ ?batch \<and>
       batchSize ?env \<le> int (length ?batch)"
    by (simp add: call_stream_def initial_state_def constructed_env_def full_page_length)
  have fails: "\<forall>i\<le>1. handler ?env (length (received ?st) + i) ?batch \<noteq> None"
    by (simp add: constructed_env_def failing_handler_def)
  have time: "\<forall>i<1. hasTimeLeft ?env (start ?st) (clock ?env (ticks ?st + i))"
    by (simp add: call_stream_def initial_state_def constructed_env_def hasTimeLeft_def
        scripted_clock_def)
  have room: "retries ?st + int 1 \<le> maxRetries ?env"
    by (simp add: call_stream_def initial_state_def constructed_env_def)
  have late: "(start ?st + maxRunTimeSeconds ?env) * 1000 < clock ?env (ticks ?st + 1)"
    by (simp add: call_stream_def initial_state_def constructed_env_def scripted_clock_def)
  have facts: "received ?st = []" "retries ?st = 0" "doneCalls ?st = []"
    "store ?st = Some empty_document" "maxRetries ?env = 5"
    "handler ?env = failing_handler (Failure ''down'')"
    "status first_stream = fresh_status 100" "previousCheckpoint first_stream = Null"
    by (simp_all add: call_stream_def initial_state_def constructed_env_def first_stream_def)
  from run_out_of_time [OF pending delivers fails time room late, of first_stream "[]"]
  have "\<exists>st' d'.
      run ?env [(Data ?batch, first_stream)] (Some empty_document)
      = (Some (Rejected (Failure ''down'')), st') \<and>
      received st' = [?batch, ?batch] \<and>
      retries st' = 1 \<and> retries st' < maxRetries ?env \<and>
      doneCalls st' = [((fresh_status 100)\<lparr>error := Some (Failure ''down'')\<rparr>, Null)] \<and>
      store st' = Some d' \<and> checkpointId d' = Null"
    unfolding facts by (auto simp add: failing_handler_def numeral_2_eq_2)
  with pending show ?thesis
    by (intro conjI)
qed




text \<open>
  C8. \<^verbatim>\<open>runSuccess\<close> with a status that reports no processed record resolves with that
  status and checkpoint and changes nothing: the store's \<^verbatim>\<open>done\<close> is not invoked. And
  every run that resolves with such a status ends with the document store as it was
  at the start and with no invocation of \<^verbatim>\<open>done\<close> at all.
\<close>

theorem zero_records_not_persisted:
  "(logsProcessed stat = 0 \<longrightarrow> runSuccess env stat cp st = (Some (Resolved stat cp), st)) \<and>
   (run env events store0 = (Some (Resolved stat cp), st') \<and> logsProcessed stat = 0 \<longrightarrow>
      store st' = store0 \<and> doneCalls st' = [])"
proof (intro conjI impI)
  assume "logsProcessed stat = 0"
  then show "runSuccess env stat cp st = (Some (Resolved stat cp), st)"
    by (simp add: runSuccess_def)
next
  assume a: "run env events store0 = (Some (Resolved stat cp), st') \<and> logsProcessed stat = 0"
  let ?st = "call_stream [Next (getNextLimit env (initial_state env store0))] (initial_state env store0)"
  have "kept ?st ?st"
    by (simp add: kept_def)
  then have "quiet ?st (handle_events env events ?st)"
    by (rule quiet_handle_events)
  with a have "kept ?st st'"
    by (simp add: run_def quiet_def)
  then have "store st' = store0 \<and> doneCalls st' = []"
    by (simp add: kept_def call_stream_def initial_state_def)
  then show "store st' = store0" and "doneCalls st' = []"
    by simp_all
qed

lemma idle_run:
  "run (constructed_env accepting_handler (stepping_clock 5000 6000) 2) [(End, idle_stream)]
       (Some \<lparr>checkpointId = Str ''l0'', logs = None\<rparr>)
   = (Some (Resolved (fresh_status 0) (Str ''l0'')),
      (initial_state (constructed_env accepting_handler (stepping_clock 5000 6000) 2)
         (Some \<lparr>checkpointId = Str ''l0'', logs = None\<rparr>))
        \<lparr>received := [[]], streamCalls := [Next 100, BatchSaved]\<rparr>)"
  by (simp add: run_def initial_state_def call_stream_def getNextLimit_def onEnd_def
      onLogsReceived_def processComplete_def endAccepted_def constructed_env_def
      accepting_handler_def runSuccess_def idle_stream_def fresh_status_def mark_saved_def)

theorem zero_records_not_persisted_witness:
  "logsProcessed (fresh_status 0) = 0 \<and>
   runSuccess (constructed_env accepting_handler (stepping_clock 5000 6000) 2) (fresh_status 0) (Str ''l0'')
     (initial_state (constructed_env accepting_handler (stepping_clock 5000 6000) 2)
        (Some \<lparr>checkpointId = Str ''l0'', logs = None\<rparr>))
   = (Some (Resolved (fresh_status 0) (Str ''l0'')),
      initial_state (constructed_env accepting_handler (stepping_clock 5000 6000) 2)
        (Some \<lparr>checkpointId = Str ''l0'', logs = None\<rparr>)) \<and>
   fst (run (constructed_env accepting_handler (stepping_clock 5000 6000) 2) [(End, idle_stream)]
       (Some \<lparr>checkpointId = Str ''l0'', logs = None\<rparr>))
   = Some (Resolved (fresh_status 0) (Str ''l0'')) \<and>
   store (snd (run (constructed_env accepting_handler (stepping_clock 5000 6000) 2) [(End, idle_stream)]
       (Some \<lparr>checkpointId = Str ''l0'', logs = None\<rparr>)))
   = Some \<lparr>checkpointId = Str ''l0'', logs = None\<rparr> \<and>
   doneCalls (snd (run (constructed_env accepting_handler (stepping_clock 5000 6000) 2) [(End, idle_stream)]
       (Some \<lparr>checkpointId = Str ''l0'', logs = None\<rparr>))) = []"
proof -
  let ?env = "constructed_env accepting_handler (stepping_clock 5000 6000) 2"
  let ?doc = "Some \<lparr>checkpointId = Str ''l0'', logs = None\<rparr>"
  let ?fin = "(initial_state ?env ?doc)\<lparr>received := [[]], streamCalls := [Next 100, BatchSaved]\<rparr>"
  have zero: "logsProcessed (fresh_status 0) = 0"
    by (simp add: fresh_status_def)
  note inst = zero_records_not_persisted [of "fresh_status 0" ?env "Str ''l0''" _ "[(End, idle_stream)]" ?doc ?fin]
  have one: "runSuccess ?env (fresh_status 0) (Str ''l0'') (initial_state ?env ?doc)
      = (Some (Resolved (fresh_status 0) (Str ''l0'')), initial_state ?env ?doc)"
    using inst [of "initial_state ?env ?doc"] zero by blast
  have two: "store ?fin = ?doc \<and> doneCalls ?fin = []"
    using inst [of "initial_state ?env ?doc"] zero idle_run by blast
  show ?thesis
    using zero one two by (simp add: idle_run)
qed

lemma runSuccess_warning:
  assumes "0 < logsProcessed stat" and "store st = Some d"
  shows "\<exists>st' d'.
     runSuccess env stat cp st =
       (Some (Resolved
          (stat\<lparr>warning :=
                 (if 604800000 \<le> clock env (ticks st) - lastLogDate st
                  then Some (Outdated (lastLogDate st)) else warning stat),
               checkpoint := cp\<rparr>) cp), st') \<and>
     store st' = Some d' \<and> checkpointId d' = cp"
  using assms by (simp add: runSuccess_def Auth0Storage_done_def Let_def)

text \<open>
  C9. The claim is that the warning is attached if and only if the last record is more
  than seven days behind the clock. The code compares with \<^verbatim>\<open>>=\<close>: a run whose last
  record is exactly 604800000 ms behind, which is not more than seven days, resolves
  with the warning attached, whose text says "more than".
\<close>

theorem warning_at_exactly_one_week:
  "\<not> (604801000 - date first_record > (604800000::int)) \<and>
   fst (run (constructed_env accepting_handler (stepping_clock 604801000 604801000) 2)
     [(Data [first_record],
        \<lparr>status = fresh_status 1, previousCheckpoint = Null, lastCheckpoint = Str ''l1''\<rparr>),
      (End, \<lparr>status = fresh_status 1, previousCheckpoint = Null, lastCheckpoint = Str ''l1''\<rparr>)]
     (Some empty_document))
   = Some (Resolved \<lparr>logsProcessed = 1, error = None, warning = Some (Outdated 1000),
                     checkpoint = Str ''l1''\<rparr> (Str ''l1''))"
  by (simp add: run_def initial_state_def call_stream_def getNextLimit_def onData_def onEnd_def
      onLogsReceived_def processComplete_def endAccepted_def constructed_env_def
      accepting_handler_def stepping_clock_def runSuccess_def
      Auth0Storage_done_def stored_logs_def empty_document_def reported_size_def
      Let_def first_record_def fresh_status_def mark_saved_def)

end
